theory Spec2Isabelle
  imports Complex_Main "HOL-Library.Product_Order"
begin

section \<open>Numeric model\<close>

text \<open>
  The simulator computes with NumPy arrays of two floats and with Python floats. The
  embedding idealises every float as a real number and every two-element array as a pair
  of reals; array addition, subtraction and negation are the componentwise operations on
  pairs. Rounding, overflow and underflow are outside the model.

  A float division by zero does not raise in NumPy: it yields an infinity or a NaN, which
  no real number represents. Every function of the model that divides therefore returns an
  \<open>option\<close>, and \<open>None\<close> stands for "a division by zero has produced a non-finite value".
\<close>

type_synonym vec = "real \<times> real"

text \<open>\<^verbatim>\<open>array * scalar\<close> and \<^verbatim>\<open>array / scalar\<close> of NumPy.\<close>

definition vscale :: "vec \<Rightarrow> real \<Rightarrow> vec" where
  "vscale v c = (fst v * c, snd v * c)"

definition vdiv :: "vec \<Rightarrow> real \<Rightarrow> vec" where
  "vdiv v c = (fst v / c, snd v / c)"

text \<open>\<^verbatim>\<open>np.linalg.norm\<close> of a two-element array: the Euclidean length.\<close>

definition linalg_norm :: "vec \<Rightarrow> real" where
  "linalg_norm v = sqrt ((fst v)\<^sup>2 + (snd v)\<^sup>2)"

text \<open>
  \<^verbatim>\<open>math.atan2(y, x)\<close>: the angle of the point \<open>(x, y)\<close> in \<open>(-pi, pi]\<close>, and \<open>0\<close> at the
  origin.
\<close>

definition atan2 :: "real \<Rightarrow> real \<Rightarrow> real" where
  "atan2 y x =
     (if 0 < x then arctan (y / x)
      else if x < 0 \<and> 0 \<le> y then arctan (y / x) + pi
      else if x < 0 \<and> y < 0 then arctan (y / x) - pi
      else if 0 < y then pi / 2
      else if y < 0 then - (pi / 2)
      else 0)"

section \<open>Constants\<close>

definition WORLD_WIDTH :: real where
  "WORLD_WIDTH = 5 * 10 ^ 8"

definition GRAVITY_CONST :: real where
  "GRAVITY_CONST = 66743 / 10 ^ 24"

definition DELTA_T :: real where
  "DELTA_T = 100"

definition STEPS_PER_RENDER :: nat where
  "STEPS_PER_RENDER = 100"

section \<open>Trail\<close>

text \<open>
  A \<^verbatim>\<open>Trail\<close> keeps the list \<^verbatim>\<open>points\<close>; its other attributes are drawing instructions.
  The stored arrays are never mutated in place (a body rebinds \<^verbatim>\<open>self.pos\<close> to a fresh
  array at every step), so a point is a value.
\<close>

record Trail =
  points :: "vec list"

definition Trail_init :: Trail where
  "Trail_init = \<lparr>points = []\<rparr>"

text \<open>
  \<^verbatim>\<open>Trail.set_pos\<close>. The index \<^verbatim>\<open>-2\<close> is read and the index \<^verbatim>\<open>-1\<close> is written only when
  the list holds at least two points, so both are in range. \<^verbatim>\<open>points[1:]\<close> drops the
  first point.
\<close>

definition set_pos :: "Trail \<Rightarrow> vec \<Rightarrow> Trail" where
  "set_pos self p =
     (let ps = points self;
          ps1 =
            (if length ps < 2 then ps @ [p]
             else if linalg_norm (ps ! (length ps - 2) - p) < WORLD_WIDTH * (1 / 100)
               then ps[length ps - 1 := p]
             else ps @ [p]);
          ps2 = (if length ps1 > 100 then drop 1 ps1 else ps1)
      in self\<lparr>points := ps2\<rparr>)"

section \<open>Body\<close>

record Body =
  pos :: vec
  vel :: vec
  mass :: real
  radius :: real
  force :: vec
  trail :: Trail

definition Body_init :: "vec \<Rightarrow> vec \<Rightarrow> real \<Rightarrow> real \<Rightarrow> Body" where
  "Body_init p v m r =
     \<lparr>pos = p, vel = v, mass = m, radius = r, force = (0, 0), trail = Trail_init\<rparr>"

definition set_force :: "Body \<Rightarrow> vec \<Rightarrow> Body" where
  "set_force self f = self\<lparr>force := f\<rparr>"

text \<open>
  \<^verbatim>\<open>Body.update_state\<close>: the two assignments run one after the other, the second on the
  body the first has left. The division by \<^verbatim>\<open>self.mass\<close> is non-finite at mass zero.
\<close>

definition update_state :: "Body \<Rightarrow> real \<Rightarrow> Body option" where
  "update_state self dt =
     (if mass self = 0 then None
      else
        let a = vdiv (force self) (mass self);
            self1 = self\<lparr>pos := pos self + vscale (vel self) dt\<rparr>;
            self2 = self1\<lparr>vel := vel self1 + vscale a dt\<rparr>
        in Some self2)"

text \<open>The part of \<^verbatim>\<open>Body.update_graphics\<close> that changes state: the trail records the position.\<close>

definition update_graphics :: "Body \<Rightarrow> Body" where
  "update_graphics self = self\<lparr>trail := set_pos (trail self) (pos self)\<rparr>"

section \<open>Force solver\<close>

text \<open>
  The body of the pair loop of \<^verbatim>\<open>calculate_forces\<close> up to the vector \<^verbatim>\<open>f\<close>. The division
  by \<^verbatim>\<open>dist**2\<close> is non-finite when the two positions coincide.
\<close>

definition pair_force :: "Body \<Rightarrow> Body \<Rightarrow> vec option" where
  "pair_force obj1 obj2 =
     (let delta = pos obj2 - pos obj1;
          dist = linalg_norm delta
      in if dist\<^sup>2 = 0 then None
         else
           let f_mag = GRAVITY_CONST * mass obj1 * mass obj2 / dist\<^sup>2;
               theta = atan2 (snd delta) (fst delta);
               fx = f_mag * cos theta;
               fy = f_mag * sin theta
           in Some (fx, fy))"

text \<open>
  The dictionary \<^verbatim>\<open>forces\<close> is keyed by the body objects, one entry per object, in the
  order of the list. The model keeps the bodies as values in a list and the accumulators
  in a list of the same length, entry \<open>i\<close> for \<^verbatim>\<open>objects[i]\<close>. A list holding the same
  object at two indices makes the pair loop visit a pair at distance zero, which is
  \<open>None\<close> here as well, so nothing is lost by the positional keys.

  The inner loop runs over \<^verbatim>\<open>range(i1+1, num_objects)\<close>, the outer one over
  \<^verbatim>\<open>range(num_objects-1)\<close>, which is empty for an empty list (as \<open>[0..<0 - 1]\<close> is). All
  indices read are below the length of the list.
\<close>

fun inner_loop :: "Body list \<Rightarrow> nat \<Rightarrow> nat list \<Rightarrow> vec list \<Rightarrow> vec list option" where
  "inner_loop objs i1 [] forces = Some forces"
| "inner_loop objs i1 (i2 # rest) forces =
     (case pair_force (objs ! i1) (objs ! i2) of
        None \<Rightarrow> None
      | Some f \<Rightarrow>
          let forces1 = forces[i1 := forces ! i1 + f];
              forces2 = forces1[i2 := forces1 ! i2 + (- f)]
          in inner_loop objs i1 rest forces2)"

fun outer_loop :: "Body list \<Rightarrow> nat list \<Rightarrow> vec list \<Rightarrow> vec list option" where
  "outer_loop objs [] forces = Some forces"
| "outer_loop objs (i1 # rest) forces =
     (case inner_loop objs i1 [i1 + 1 ..< length objs] forces of
        None \<Rightarrow> None
      | Some forces' \<Rightarrow> outer_loop objs rest forces')"

definition calculate_forces :: "Body list \<Rightarrow> Body list option" where
  "calculate_forces objs =
     (let forces = map (\<lambda>obj. (0, 0)) objs;
          num_objects = length objs
      in case outer_loop objs [0 ..< num_objects - 1] forces of
           None \<Rightarrow> None
         | Some forces' \<Rightarrow> Some (map (\<lambda>(obj, f). set_force obj f) (zip objs forces')))"

section \<open>Simulation driver\<close>

record MainWidget =
  time :: real
  objects :: "Body list"

text \<open>\<^verbatim>\<open>for obj in self.objects: obj.update_state(dt)\<close>\<close>

fun update_all :: "Body list \<Rightarrow> real \<Rightarrow> Body list option" where
  "update_all [] dt = Some []"
| "update_all (obj # rest) dt =
     (case update_state obj dt of
        None \<Rightarrow> None
      | Some obj' \<Rightarrow>
          (case update_all rest dt of
             None \<Rightarrow> None
           | Some rest' \<Rightarrow> Some (obj' # rest')))"

text \<open>One pass of the body of the step loop of \<^verbatim>\<open>on_update\<close>.\<close>

definition sim_step :: "real \<Rightarrow> MainWidget \<Rightarrow> MainWidget option" where
  "sim_step dt self =
     (let self1 = self\<lparr>time := time self + dt\<rparr>
      in case calculate_forces (objects self1) of
           None \<Rightarrow> None
         | Some objs \<Rightarrow>
             (case update_all objs dt of
                None \<Rightarrow> None
              | Some objs' \<Rightarrow> Some (self1\<lparr>objects := objs'\<rparr>)))"

text \<open>The step loop, with the number of passes and the time step as parameters.\<close>

fun sim_steps :: "nat \<Rightarrow> real \<Rightarrow> MainWidget \<Rightarrow> MainWidget option" where
  "sim_steps 0 dt self = Some self"
| "sim_steps (Suc n) dt self =
     (case sim_step dt self of
        None \<Rightarrow> None
      | Some self' \<Rightarrow> sim_steps n dt self')"

text \<open>
  \<^verbatim>\<open>MainWidget.on_update\<close>: the frame time passed in is replaced by \<^verbatim>\<open>DELTA_T\<close>, the loop
  runs \<^verbatim>\<open>STEPS_PER_RENDER\<close> times, then every body updates its graphics.
\<close>

definition on_update :: "MainWidget \<Rightarrow> real \<Rightarrow> MainWidget option" where
  "on_update self frame_dt =
     (let dt = DELTA_T
      in case sim_steps STEPS_PER_RENDER dt self of
           None \<Rightarrow> None
         | Some self' \<Rightarrow> Some (self'\<lparr>objects := map update_graphics (objects self')\<rparr>))"

section \<open>Notions of the specification\<close>

text \<open>
  Newton's law for one ordered pair: the vector of magnitude \<open>G * m_i * m_j / d\<^sup>2\<close> along the
  unit vector from body \<open>i\<close> to body \<open>j\<close>, where \<open>d\<close> is the distance of the two positions.
\<close>

definition newton_force :: "Body \<Rightarrow> Body \<Rightarrow> vec" where
  "newton_force bi bj =
     (let delta = pos bj - pos bi;
          d = linalg_norm delta
      in vscale (vdiv delta d) (GRAVITY_CONST * mass bi * mass bj / d\<^sup>2))"

text \<open>The net force on body \<open>i\<close> of a list: the sum of Newton's law over all other bodies.\<close>

definition net_force :: "Body list \<Rightarrow> nat \<Rightarrow> vec" where
  "net_force objs i = (\<Sum>j\<in>{..<length objs} - {i}. newton_force (objs ! i) (objs ! j))"

text \<open>The explicit Euler step: both new values are computed from the values before the step.\<close>

definition euler_step :: "Body \<Rightarrow> real \<Rightarrow> Body" where
  "euler_step b dt =
     b\<lparr>pos := pos b + vscale (vel b) dt,
       vel := vel b + vscale (vdiv (force b) (mass b)) dt\<rparr>"

text \<open>The total momentum of a list of bodies: the sum of mass times velocity.\<close>

definition momentum :: "Body list \<Rightarrow> vec" where
  "momentum objs = (\<Sum>b\<leftarrow>objs. vscale (vel b) (mass b))"

text \<open>The spacing threshold of a trail: one percent of the world width.\<close>

definition spacing :: real where
  "spacing = WORLD_WIDTH * (1 / 100)"

text \<open>
  The spacing property that \<^verbatim>\<open>set_pos\<close> maintains: every stored point with two
  predecessors is at least the threshold away from the point two places before it, or
  closer than the threshold to the point right before it.
\<close>

definition triple_spaced :: "vec list \<Rightarrow> bool" where
  "triple_spaced ps \<longleftrightarrow>
     (\<forall>i. i + 2 < length ps \<longrightarrow>
        spacing \<le> linalg_norm (ps ! i - ps ! (i + 2)) \<or>
        linalg_norm (ps ! (i + 1) - ps ! (i + 2)) < spacing)"

section \<open>Example inputs\<close>

definition body_a :: Body where
  "body_a = Body_init (0, 0) (0, 0) 2 1"

definition body_b :: Body where
  "body_b = Body_init (3, 0) (0, 1) 5 1"

definition body_c :: Body where
  "body_c = Body_init (3, 4) (1, 0) 1 1"

definition widget_ab :: MainWidget where
  "widget_ab = \<lparr>time = 0, objects = [body_a, body_b]\<rparr>"

text \<open>A trail of one hundred points on the x axis, each \<open>10\<^sup>7\<close> km from the next.\<close>

definition full_trail :: Trail where
  "full_trail = \<lparr>points = map (\<lambda>i. (real i * 10 ^ 7, 0)) [0..<100]\<rparr>"

definition widget_b :: MainWidget where
  "widget_b = \<lparr>time = 0, objects = [body_b]\<rparr>"

text \<open>The state of \<open>widget_ab\<close> after one step of one second.\<close>

definition widget_ab_1 :: MainWidget where
  "widget_ab_1 =
     \<lparr>time = 1,
      objects =
        [body_a\<lparr>force := (GRAVITY_CONST * 10 / 9, 0), vel := (GRAVITY_CONST * 5 / 9, 0)\<rparr>,
         body_b\<lparr>force := (- (GRAVITY_CONST * 10 / 9), 0), pos := (3, 1),
                vel := (- (GRAVITY_CONST * 2 / 9), 1)\<rparr>]\<rparr>"

text \<open>The state of \<open>widget_b\<close> after one frame update.\<close>

definition widget_b_100 :: MainWidget where
  "widget_b_100 =
     \<lparr>time = 10000,
      objects = [body_b\<lparr>pos := (3, 10000), trail := \<lparr>points = [(3, 10000)]\<rparr>\<rparr>]\<rparr>"

text \<open>A trail of two points that are far apart.\<close>

definition trail_2 :: Trail where
  "trail_2 = \<lparr>points = [(0, 0), (10 ^ 7, 0)]\<rparr>"

section \<open>Trigonometry of the force direction\<close>

lemma sqrt_one_plus_sq:
  assumes "x \<noteq> 0"
  shows "sqrt (1 + (y / x)\<^sup>2) = sqrt (x\<^sup>2 + y\<^sup>2) / \<bar>x\<bar>"
proof -
  have "1 + (y / x)\<^sup>2 = (x\<^sup>2 + y\<^sup>2) / x\<^sup>2"
    using assms by (simp add: field_simps power2_eq_square)
  then show ?thesis
    by (simp add: real_sqrt_divide)
qed

lemma cos_atan2:
  assumes "x \<noteq> 0 \<or> y \<noteq> 0"
  shows "cos (atan2 y x) = x / sqrt (x\<^sup>2 + y\<^sup>2)"
proof -
  consider "0 < x" | "x < 0" | "x = 0" "y \<noteq> 0" using assms by fastforce
  then show ?thesis
  proof cases
    case 1
    then show ?thesis
      by (simp add: atan2_def cos_arctan sqrt_one_plus_sq)
  next
    case 2
    then show ?thesis
      by (simp add: atan2_def cos_arctan sqrt_one_plus_sq)
  next
    case 3
    then show ?thesis
      by (simp add: atan2_def)
  qed
qed

lemma sin_atan2:
  assumes "x \<noteq> 0 \<or> y \<noteq> 0"
  shows "sin (atan2 y x) = y / sqrt (x\<^sup>2 + y\<^sup>2)"
proof -
  consider "0 < x" | "x < 0" | "x = 0" "0 < y" | "x = 0" "y < 0" using assms by fastforce
  then show ?thesis
  proof cases
    case 1
    then show ?thesis
      by (simp add: atan2_def sin_arctan sqrt_one_plus_sq)
  next
    case 2
    then show ?thesis
      by (simp add: atan2_def sin_arctan sqrt_one_plus_sq)
  next
    case 3
    then show ?thesis
      by (simp add: atan2_def)
  next
    case 4
    then show ?thesis
      by (simp add: atan2_def)
  qed
qed

section \<open>The force of one pair\<close>

lemma linalg_norm_eq_0: "linalg_norm v = 0 \<longleftrightarrow> v = (0, 0)"
  by (cases v) (simp add: linalg_norm_def sum_power2_eq_zero_iff)

lemma linalg_norm_minus: "linalg_norm (a - b) = linalg_norm (b - a)"
  by (cases a, cases b) (simp add: linalg_norm_def power2_commute)

lemma pair_force_None: "pos a = pos b \<Longrightarrow> pair_force a b = None"
  by (simp add: pair_force_def linalg_norm_def)

lemma pair_force_newton:
  assumes "pos a \<noteq> pos b"
  shows "pair_force a b = Some (newton_force a b)"
proof -
  obtain x y where d: "pos b - pos a = (x, y)" by (cases "pos b - pos a")
  have nz: "x \<noteq> 0 \<or> y \<noteq> 0"
  proof (rule ccontr)
    assume "\<not> ?thesis"
    then have "pos b - pos a = 0" using d by (simp add: zero_prod_def)
    then show False using assms by simp
  qed
  then have "linalg_norm (x, y) \<noteq> 0"
    by (simp add: linalg_norm_eq_0)
  then show ?thesis
    using nz
    by (simp add: pair_force_def newton_force_def d Let_def cos_atan2 sin_atan2
        vscale_def vdiv_def) (simp add: linalg_norm_def mult_ac)
qed

lemma newton_force_antisym: "newton_force b a = - newton_force a b"
proof -
  obtain x y where d: "pos b - pos a = (x, y)" by (cases "pos b - pos a")
  have "pos a - pos b = - (pos b - pos a)" by simp
  then have d': "pos a - pos b = (- x, - y)" by (simp add: d)
  show ?thesis
    by (simp add: newton_force_def d d' Let_def vscale_def vdiv_def linalg_norm_def mult.commute)
qed

section \<open>The pair loops\<close>

lemma inner_loop_sum:
  assumes "length fs = length objs"
    and "i1 < length objs"
    and "\<forall>j\<in>set js. i1 < j \<and> j < length objs \<and> pos (objs ! i1) \<noteq> pos (objs ! j)"
    and "distinct js"
  shows "\<exists>fs'. inner_loop objs i1 js fs = Some fs' \<and> length fs' = length objs \<and>
           (\<forall>k<length objs. fs' ! k = fs ! k +
              (if k = i1 then (\<Sum>j\<in>set js. newton_force (objs ! k) (objs ! j))
               else if k \<in> set js then newton_force (objs ! k) (objs ! i1)
               else 0))"
  using assms
proof (induction js arbitrary: fs)
  case Nil
  then show ?case by simp
next
  case (Cons j js)
  let ?f = "newton_force (objs ! i1) (objs ! j)"
  let ?fs1 = "fs[i1 := fs ! i1 + ?f]"
  let ?fs2 = "?fs1[j := ?fs1 ! j + (- ?f)]"
  have pf: "pair_force (objs ! i1) (objs ! j) = Some ?f"
    using Cons.prems by (simp add: pair_force_newton)
  have len2: "length ?fs2 = length objs"
    using Cons.prems by simp
  have rest: "\<forall>j\<in>set js. i1 < j \<and> j < length objs \<and> pos (objs ! i1) \<noteq> pos (objs ! j)"
    using Cons.prems by simp
  have djs: "distinct js" using Cons.prems by simp
  from Cons.IH [OF len2 Cons.prems(2) rest djs]
  obtain fs' where run: "inner_loop objs i1 js ?fs2 = Some fs'"
    and len': "length fs' = length objs"
    and val: "\<forall>k<length objs. fs' ! k = ?fs2 ! k +
              (if k = i1 then (\<Sum>j\<in>set js. newton_force (objs ! k) (objs ! j))
               else if k \<in> set js then newton_force (objs ! k) (objs ! i1)
               else 0)"
    by blast
  have step: "inner_loop objs i1 (j # js) fs = Some fs'"
    by (simp only: inner_loop.simps pf option.case Let_def run)
  have ij: "i1 < j" "j < length objs" "j \<notin> set js" "i1 \<notin> set js"
    using Cons.prems by auto
  have anti: "- ?f = newton_force (objs ! j) (objs ! i1)"
    by (rule newton_force_antisym [symmetric])
  have "fs' ! k = fs ! k +
              (if k = i1 then (\<Sum>j\<in>set (j # js). newton_force (objs ! k) (objs ! j))
               else if k \<in> set (j # js) then newton_force (objs ! k) (objs ! i1)
               else 0)" if k: "k < length objs" for k
  proof -
    have v: "fs' ! k = ?fs2 ! k +
              (if k = i1 then (\<Sum>j\<in>set js. newton_force (objs ! k) (objs ! j))
               else if k \<in> set js then newton_force (objs ! k) (objs ! i1)
               else 0)"
      using val k by blast
    consider "k = i1" | "k = j" | "k \<noteq> i1" "k \<noteq> j" by blast
    then show ?thesis
    proof cases
      case 1
      then show ?thesis
        using v ij k Cons.prems(1) by (simp add: add.assoc)
    next
      case 2
      then show ?thesis
        using v ij k Cons.prems(1) anti by simp
    next
      case 3
      then show ?thesis
        using v ij k Cons.prems(1) by simp
    qed
  qed
  then show ?case
    using step len' by blast
qed

lemma distinct_pos_nth:
  assumes "distinct (map pos objs)" "i < length objs" "j < length objs" "i \<noteq> j"
  shows "pos (objs ! i) \<noteq> pos (objs ! j)"
  using assms nth_eq_iff_index_eq [of "map pos objs" i j] by simp

lemma outer_loop_sum:
  assumes "length fs = length objs"
    and "\<forall>i\<in>set is. i < length objs"
    and "distinct is"
    and "distinct (map pos objs)"
  shows "\<exists>fs'. outer_loop objs is fs = Some fs' \<and> length fs' = length objs \<and>
           (\<forall>k<length objs. fs' ! k = fs ! k +
              (\<Sum>i\<in>set is.
                 if k = i then (\<Sum>j\<in>{i + 1..<length objs}. newton_force (objs ! k) (objs ! j))
                 else if i < k then newton_force (objs ! k) (objs ! i)
                 else 0))"
  using assms
proof (induction "is" arbitrary: fs)
  case Nil
  then show ?case by simp
next
  case (Cons i "is")
  let ?g = "\<lambda>k i. if k = i then (\<Sum>j\<in>{i + 1..<length objs}. newton_force (objs ! k) (objs ! j))
                 else if i < k then newton_force (objs ! k) (objs ! i)
                 else 0"
  have i: "i < length objs" "i \<notin> set is" using Cons.prems by auto
  have inner_pre: "\<forall>j\<in>set [i + 1..<length objs].
      i < j \<and> j < length objs \<and> pos (objs ! i) \<noteq> pos (objs ! j)"
    using distinct_pos_nth [OF Cons.prems(4) i(1)] by auto
  from inner_loop_sum [OF Cons.prems(1) i(1) inner_pre]
  obtain fs1 where run1: "inner_loop objs i [i + 1..<length objs] fs = Some fs1"
    and len1: "length fs1 = length objs"
    and val1: "\<forall>k<length objs. fs1 ! k = fs ! k +
              (if k = i then (\<Sum>j\<in>set [i + 1..<length objs]. newton_force (objs ! k) (objs ! j))
               else if k \<in> set [i + 1..<length objs] then newton_force (objs ! k) (objs ! i)
               else 0)"
    by auto
  have rest: "\<forall>i\<in>set is. i < length objs" "distinct is"
    using Cons.prems by auto
  from Cons.IH [OF len1 rest Cons.prems(4)]
  obtain fs' where run: "outer_loop objs is fs1 = Some fs'"
    and len': "length fs' = length objs"
    and val: "\<forall>k<length objs. fs' ! k = fs1 ! k + (\<Sum>i\<in>set is. ?g k i)"
    by blast
  have step: "outer_loop objs (i # is) fs = Some fs'"
    by (simp only: outer_loop.simps run1 option.case run)
  have "fs' ! k = fs ! k + (\<Sum>i\<in>set (i # is). ?g k i)" if k: "k < length objs" for k
  proof -
    have a: "fs1 ! k = fs ! k + ?g k i"
      using val1 k by auto
    have b: "fs' ! k = fs1 ! k + (\<Sum>i\<in>set is. ?g k i)"
      using val k by blast
    have "(\<Sum>i\<in>set (i # is). ?g k i) = ?g k i + (\<Sum>i\<in>set is. ?g k i)"
      using i(2) by simp
    then show ?thesis
      using a b by (simp only: add.assoc)
  qed
  then show ?case
    using step len' by blast
qed

lemma pair_sum_split:
  fixes F :: "nat \<Rightarrow> vec"
  assumes "k < n"
  shows "(\<Sum>i\<in>set [0..<n - 1].
            if k = i then (\<Sum>j\<in>{i + 1..<n}. F j) else if i < k then F i else 0)
         = (\<Sum>j\<in>{..<n} - {k}. F j)"
proof -
  let ?A = "{0..<n - 1}"
  let ?S = "\<Sum>j\<in>{k + 1..<n}. F j"
  have "(\<Sum>i\<in>?A. if k = i then (\<Sum>j\<in>{i + 1..<n}. F j) else if i < k then F i else 0)
      = (\<Sum>i\<in>?A. (if k = i then ?S else 0) + (if i < k then F i else 0))"
    by (rule sum.cong) auto
  also have "\<dots> = (\<Sum>i\<in>?A. if k = i then ?S else 0) + (\<Sum>i\<in>?A. if i < k then F i else 0)"
    by (rule sum.distrib)
  also have "(\<Sum>i\<in>?A. if k = i then ?S else 0) = ?S"
  proof (cases "k \<in> ?A")
    case True
    then show ?thesis by simp
  next
    case False
    then have "k + 1 = n" using assms by auto
    then have "?S = 0" by auto
    then show ?thesis using False by simp
  qed
  also have "(\<Sum>i\<in>?A. if i < k then F i else 0) = (\<Sum>i\<in>{0..<k}. F i)"
  proof -
    have "(\<Sum>i\<in>?A. if i < k then F i else 0) = (\<Sum>i\<in>?A \<inter> {i. i < k}. F i)"
      by (simp add: sum.inter_restrict)
    moreover have "?A \<inter> {i. i < k} = {0..<k}"
      using assms by auto
    ultimately show ?thesis by simp
  qed
  also have "?S + (\<Sum>i\<in>{0..<k}. F i) = (\<Sum>j\<in>{0..<k} \<union> {k + 1..<n}. F j)"
    by (subst sum.union_disjoint) (auto simp: add.commute)
  also have "{0..<k} \<union> {k + 1..<n} = {..<n} - {k}"
    using assms by auto
  finally show ?thesis by simp
qed

lemma calculate_forces_distinct:
  assumes "distinct (map pos objs)"
  shows "calculate_forces objs =
           Some (map (\<lambda>i. set_force (objs ! i) (net_force objs i)) [0..<length objs])"
proof -
  let ?n = "length objs"
  let ?z = "map (\<lambda>obj. (0, 0) :: vec) objs"
  have "\<forall>i\<in>set [0..<?n - 1]. i < ?n" by auto
  from outer_loop_sum [OF _ this _ assms, of ?z]
  obtain fs where run: "outer_loop objs [0..<?n - 1] ?z = Some fs"
    and len: "length fs = ?n"
    and val: "\<forall>k<?n. fs ! k = ?z ! k +
              (\<Sum>i\<in>set [0..<?n - 1].
                 if k = i then (\<Sum>j\<in>{i + 1..<?n}. newton_force (objs ! k) (objs ! j))
                 else if i < k then newton_force (objs ! k) (objs ! i)
                 else 0)"
    by auto
  have fs: "fs ! k = net_force objs k" if "k < ?n" for k
  proof -
    have "fs ! k = (\<Sum>i\<in>set [0..<?n - 1].
                 if k = i then (\<Sum>j\<in>{i + 1..<?n}. newton_force (objs ! k) (objs ! j))
                 else if i < k then newton_force (objs ! k) (objs ! i)
                 else 0)"
      using val that by (simp add: zero_prod_def)
    also have "\<dots> = net_force objs k"
      unfolding net_force_def
      by (rule pair_sum_split [OF that, of "\<lambda>j. newton_force (objs ! k) (objs ! j)"])
    finally show ?thesis .
  qed
  have "map (\<lambda>(obj, f). set_force obj f) (zip objs fs)
      = map (\<lambda>i. set_force (objs ! i) (net_force objs i)) [0..<?n]"
    by (rule nth_equalityI) (use len fs in auto)
  then show ?thesis
    using run by (simp add: calculate_forces_def Let_def)
qed

lemma inner_loop_length:
  "inner_loop objs i1 js fs = Some fs' \<Longrightarrow> length fs' = length fs"
  by (induction js arbitrary: fs) (auto simp: Let_def split: option.splits)

lemma outer_loop_length:
  "outer_loop objs is fs = Some fs' \<Longrightarrow> length fs' = length fs"
  by (induction "is" arbitrary: fs) (auto split: option.splits dest: inner_loop_length)

lemma sum_list_upd:
  fixes xs :: "vec list"
  shows "k < length xs \<Longrightarrow> sum_list (xs[k := x]) = sum_list xs + x - xs ! k"
proof (induction xs arbitrary: k)
  case Nil
  then show ?case by simp
next
  case (Cons a xs)
  then show ?case by (cases k) simp_all
qed

lemma inner_loop_total:
  assumes "inner_loop objs i1 js fs = Some fs'"
    and "i1 < length fs" and "\<forall>j\<in>set js. j < length fs"
  shows "sum_list fs' = sum_list fs"
  using assms
proof (induction js arbitrary: fs)
  case Nil
  then show ?case by simp
next
  case (Cons j js)
  from Cons.prems(1) obtain f where pf: "pair_force (objs ! i1) (objs ! j) = Some f"
    by (auto split: option.splits)
  let ?fs1 = "fs[i1 := fs ! i1 + f]"
  let ?fs2 = "?fs1[j := ?fs1 ! j + (- f)]"
  have run: "inner_loop objs i1 js ?fs2 = Some fs'"
    using Cons.prems(1) pf by (simp add: Let_def)
  have "sum_list fs' = sum_list ?fs2"
    using Cons.prems by (intro Cons.IH [OF run]) auto
  also have "\<dots> = sum_list ?fs1 + (?fs1 ! j + (- f)) - ?fs1 ! j"
    by (rule sum_list_upd) (use Cons.prems(3) in simp)
  also have "\<dots> = sum_list ?fs1 - f"
    by simp
  also have "sum_list ?fs1 = sum_list fs + (fs ! i1 + f) - fs ! i1"
    by (rule sum_list_upd) (rule Cons.prems(2))
  finally show ?case by simp
qed

lemma outer_loop_total:
  assumes "outer_loop objs is fs = Some fs'"
    and "length fs = length objs" and "\<forall>i\<in>set is. i < length objs"
  shows "sum_list fs' = sum_list fs"
  using assms
proof (induction "is" arbitrary: fs)
  case Nil
  then show ?case by simp
next
  case (Cons i "is")
  from Cons.prems(1) obtain fs1
    where run1: "inner_loop objs i [i + 1..<length objs] fs = Some fs1"
      and run: "outer_loop objs is fs1 = Some fs'"
    by (auto split: option.splits)
  have len1: "length fs1 = length objs"
    using inner_loop_length [OF run1] Cons.prems(2) by simp
  have "sum_list fs' = sum_list fs1"
    using Cons.prems(3) by (intro Cons.IH [OF run len1]) auto
  also have "\<dots> = sum_list fs"
    using Cons.prems by (intro inner_loop_total [OF run1]) auto
  finally show ?case .
qed

lemma calculate_forces_frame:
  assumes "calculate_forces objs = Some objs'"
  shows "\<exists>fs. length fs = length objs \<and> sum_list fs = (0, 0) \<and>
           objs' = map (\<lambda>(obj, f). set_force obj f) (zip objs fs)"
proof -
  let ?z = "map (\<lambda>obj. (0, 0) :: vec) objs"
  from assms obtain fs where run: "outer_loop objs [0..<length objs - 1] ?z = Some fs"
    and res: "objs' = map (\<lambda>(obj, f). set_force obj f) (zip objs fs)"
    by (auto simp: calculate_forces_def Let_def split: option.splits)
  have len: "length fs = length objs"
    using outer_loop_length [OF run] by simp
  have "sum_list fs = sum_list ?z"
    by (rule outer_loop_total [OF run]) auto
  also have "\<dots> = (0, 0)"
    by (induction objs) (simp_all add: zero_prod_def)
  finally show ?thesis
    using len res by blast
qed

section \<open>Integration and momentum\<close>

lemma update_state_euler:
  "update_state b dt = (if mass b = 0 then None else Some (euler_step b dt))"
  by (simp add: update_state_def euler_step_def Let_def)

lemma update_all_total:
  "\<forall>b\<in>set objs. mass b \<noteq> 0 \<Longrightarrow>
   update_all objs dt = Some (map (\<lambda>b. euler_step b dt) objs)"
  by (induction objs) (simp_all add: update_state_euler)

lemma update_all_masses:
  "update_all objs dt = Some objs' \<Longrightarrow> \<forall>b\<in>set objs. mass b \<noteq> 0"
  by (induction objs arbitrary: objs')
    (auto simp: update_state_euler split: option.splits if_splits)

lemma update_all_Some:
  "update_all objs dt = Some objs' \<longleftrightarrow>
     (\<forall>b\<in>set objs. mass b \<noteq> 0) \<and> objs' = map (\<lambda>b. euler_step b dt) objs"
  using update_all_total [of objs dt] update_all_masses [of objs dt objs'] by auto

lemma vscale_sum_list:
  "(\<Sum>b\<leftarrow>xs. vscale (f b) c) = vscale (\<Sum>b\<leftarrow>xs. f b) c"
  by (induction xs) (simp_all add: vscale_def zero_prod_def distrib_right)

lemma momentum_euler:
  assumes "\<forall>b\<in>set objs. mass b \<noteq> 0"
  shows "momentum (map (\<lambda>b. euler_step b dt) objs) =
           momentum objs + vscale (sum_list (map force objs)) dt"
proof -
  have "vscale (vel (euler_step b dt)) (mass (euler_step b dt)) =
          vscale (vel b) (mass b) + vscale (force b) dt" if "b \<in> set objs" for b
  proof -
    have "mass b \<noteq> 0" using assms that by blast
    then show ?thesis
      by (cases "vel b"; cases "force b")
        (simp add: euler_step_def vscale_def vdiv_def distrib_right)
  qed
  then have "momentum (map (\<lambda>b. euler_step b dt) objs) =
      (\<Sum>b\<leftarrow>objs. vscale (vel b) (mass b) + vscale (force b) dt)"
    unfolding momentum_def map_map comp_def by (intro arg_cong [where f = sum_list] map_cong) auto
  also have "\<dots> = momentum objs + vscale (sum_list (map force objs)) dt"
    by (simp add: sum_list_addf momentum_def vscale_sum_list)
  finally show ?thesis .
qed

lemma map2_set_force:
  assumes "length fs = length objs"
  shows "map force (map (\<lambda>(obj, f). set_force obj f) (zip objs fs)) = fs"
    and "map vel (map (\<lambda>(obj, f). set_force obj f) (zip objs fs)) = map vel objs"
    and "map pos (map (\<lambda>(obj, f). set_force obj f) (zip objs fs)) = map pos objs"
    and "map mass (map (\<lambda>(obj, f). set_force obj f) (zip objs fs)) = map mass objs"
    and "map radius (map (\<lambda>(obj, f). set_force obj f) (zip objs fs)) = map radius objs"
    and "map trail (map (\<lambda>(obj, f). set_force obj f) (zip objs fs)) = map trail objs"
  using assms by (auto intro!: nth_equalityI simp: set_force_def)

lemma momentum_cong:
  assumes "map vel xs = map vel ys" "map mass xs = map mass ys"
  shows "momentum xs = momentum ys"
proof -
  have "length xs = length ys" using assms(1) by (rule map_eq_imp_length_eq)
  then show ?thesis
    using assms unfolding momentum_def
    by (induction xs ys rule: list_induct2) simp_all
qed

lemma sim_step_Some:
  "sim_step dt w = Some w' \<longleftrightarrow>
     (\<exists>objs1. calculate_forces (objects w) = Some objs1 \<and>
        (\<forall>b\<in>set objs1. mass b \<noteq> 0) \<and>
        w' = w\<lparr>time := time w + dt, objects := map (\<lambda>b. euler_step b dt) objs1\<rparr>)"
  by (cases "calculate_forces (objects w)")
    (auto simp: sim_step_def Let_def update_all_Some update_all_total split: option.splits)

lemma sim_step_momentum:
  assumes "sim_step dt w = Some w'"
  shows "momentum (objects w') = momentum (objects w)"
proof -
  from assms obtain objs1 where cf: "calculate_forces (objects w) = Some objs1"
    and m: "\<forall>b\<in>set objs1. mass b \<noteq> 0"
    and w': "w' = w\<lparr>time := time w + dt, objects := map (\<lambda>b. euler_step b dt) objs1\<rparr>"
    by (auto simp: sim_step_Some)
  from calculate_forces_frame [OF cf] obtain fs
    where len: "length fs = length (objects w)" and tot: "sum_list fs = (0, 0)"
      and o1: "objs1 = map (\<lambda>(obj, f). set_force obj f) (zip (objects w) fs)"
    by blast
  have "momentum (objects w') = momentum objs1 + vscale (sum_list (map force objs1)) dt"
    using momentum_euler [OF m] w' by simp
  also have "map force objs1 = fs"
    unfolding o1 by (rule map2_set_force(1) [OF len])
  also have "vscale (sum_list fs) dt = 0"
    by (simp add: tot vscale_def zero_prod_def)
  also have "momentum objs1 = momentum (objects w)"
    unfolding o1 by (rule momentum_cong) (simp_all only: map2_set_force [OF len])
  finally show ?thesis by simp
qed

lemma sim_steps_momentum:
  "sim_steps n dt w = Some w' \<Longrightarrow> momentum (objects w') = momentum (objects w)"
proof (induction n arbitrary: w)
  case 0
  then show ?case by simp
next
  case (Suc n)
  then show ?case
    by (auto split: option.splits dest: sim_step_momentum)
qed

lemma sim_steps_time:
  "sim_steps n dt w = Some w' \<Longrightarrow> time w' = time w + real n * dt"
proof (induction n arbitrary: w)
  case 0
  then show ?case by simp
next
  case (Suc n)
  from Suc.prems obtain w1 where s: "sim_step dt w = Some w1" and r: "sim_steps n dt w1 = Some w'"
    by (auto split: option.splits)
  have "time w1 = time w + dt" using s by (auto simp: sim_step_Some)
  then show ?case
    using Suc.IH [OF r] by (simp add: algebra_simps)
qed

section \<open>Short lists and the step loop\<close>

lemma calculate_forces_few:
  assumes "length objs \<le> 1"
  shows "calculate_forces objs = Some (map (\<lambda>b. set_force b (0, 0)) objs)"
proof (cases objs)
  case Nil
  then show ?thesis by (simp add: calculate_forces_def)
next
  case (Cons b rest)
  then have "rest = []" using assms by simp
  then show ?thesis using Cons by (simp add: calculate_forces_def)
qed

lemma calculate_forces_two:
  "calculate_forces [a, b] =
     (case pair_force a b of
        None \<Rightarrow> None
      | Some f \<Rightarrow> Some [set_force a f, set_force b (- f)])"
  by (simp add: calculate_forces_def Let_def zero_prod_def split: option.splits)

lemma inner_loop_single:
  assumes "pair_force (objs ! i1) (objs ! i2) = Some f"
    and "i1 < length forces" and "i2 < length forces" and "i1 \<noteq> i2"
  shows "\<exists>forces'. inner_loop objs i1 [i2] forces = Some forces' \<and>
           forces' ! i1 = forces ! i1 + f \<and> forces' ! i2 = forces ! i2 + (- f)"
  using assms by (simp add: Let_def)

lemma euler_step_rest:
  "mass b \<noteq> 0 \<Longrightarrow> euler_step (set_force b (0, 0)) dt =
     b\<lparr>force := (0, 0), pos := pos b + vscale (vel b) dt\<rparr>"
  by (cases "vel b") (simp add: euler_step_def set_force_def vscale_def vdiv_def)

lemma calculate_forces_masses:
  assumes "calculate_forces objs = Some objs1"
  shows "map mass objs1 = map mass objs"
proof -
  from calculate_forces_frame [OF assms] obtain fs
    where len: "length fs = length objs"
      and o1: "objs1 = map (\<lambda>(obj, f). set_force obj f) (zip objs fs)"
    by blast
  show ?thesis unfolding o1 by (rule map2_set_force(4) [OF len])
qed

lemma sim_step_total:
  assumes "distinct (map pos (objects w))" and "\<forall>b\<in>set (objects w). mass b \<noteq> 0"
  shows "\<exists>w'. sim_step dt w = Some w'"
proof -
  from calculate_forces_distinct [OF assms(1)] obtain objs1
    where cf: "calculate_forces (objects w) = Some objs1"
    by blast
  have "set (map mass objs1) = set (map mass (objects w))"
    using calculate_forces_masses [OF cf] by simp
  then have "\<forall>b\<in>set objs1. mass b \<noteq> 0"
    using assms(2) by (metis (no_types, lifting) image_iff list.set_map)
  then show ?thesis
    using cf by (auto simp: sim_step_Some)
qed

lemma sim_step_few:
  assumes "length (objects w) \<le> 1" and "\<forall>b\<in>set (objects w). mass b \<noteq> 0"
  shows "sim_step dt w =
     Some (w\<lparr>time := time w + dt,
             objects := map (\<lambda>b. b\<lparr>force := (0, 0), pos := pos b + vscale (vel b) dt\<rparr>)
                          (objects w)\<rparr>)"
proof -
  have "map (\<lambda>b. euler_step b dt) (map (\<lambda>b. set_force b (0, 0)) (objects w)) =
        map (\<lambda>b. b\<lparr>force := (0, 0), pos := pos b + vscale (vel b) dt\<rparr>) (objects w)"
    using assms(2) by (simp add: euler_step_rest)
  moreover have "\<forall>b\<in>set (map (\<lambda>b. set_force b (0, 0)) (objects w)). mass b \<noteq> 0"
    using assms(2) by (simp add: set_force_def)
  ultimately show ?thesis
    using calculate_forces_few [OF assms(1)]
    by (simp add: sim_step_def Let_def update_all_total)
qed

lemma sim_steps_few:
  assumes "length (objects w) \<le> 1" and "\<forall>b\<in>set (objects w). mass b \<noteq> 0"
  shows "\<exists>w'. sim_steps n dt w = Some w' \<and>
           length (objects w') = length (objects w) \<and>
           map vel (objects w') = map vel (objects w) \<and>
           (0 < n \<longrightarrow> (\<forall>b'\<in>set (objects w'). force b' = (0, 0)))"
  using assms
proof (induction n arbitrary: w)
  case 0
  then show ?case by simp
next
  case (Suc n)
  let ?w1 = "w\<lparr>time := time w + dt,
             objects := map (\<lambda>b. b\<lparr>force := (0, 0), pos := pos b + vscale (vel b) dt\<rparr>)
                          (objects w)\<rparr>"
  have s: "sim_step dt w = Some ?w1"
    using Suc.prems by (rule sim_step_few)
  have l1: "length (objects ?w1) \<le> 1" using Suc.prems(1) by simp
  have m1: "\<forall>b\<in>set (objects ?w1). mass b \<noteq> 0" using Suc.prems(2) by simp
  have f1: "\<forall>b\<in>set (objects ?w1). force b = (0, 0)" by simp
  have v1: "map vel (objects ?w1) = map vel (objects w)" by (simp add: comp_def)
  from Suc.IH [OF l1 m1] obtain w' where r: "sim_steps n dt ?w1 = Some w'"
    and len: "length (objects w') = length (objects ?w1)"
    and vel: "map vel (objects w') = map vel (objects ?w1)"
    and frc: "0 < n \<longrightarrow> (\<forall>b'\<in>set (objects w'). force b' = (0, 0))"
    by blast
  have frc': "\<forall>b'\<in>set (objects w'). force b' = (0, 0)"
  proof (cases n)
    case 0
    then have "w' = ?w1" using r by simp
    then show ?thesis using f1 by simp
  next
    case (Suc m)
    then show ?thesis using frc by simp
  qed
  have "sim_steps (Suc n) dt w = Some w'"
    using s r by simp
  then show ?case
    using len vel v1 frc' by simp
qed

lemma sim_steps_single:
  assumes "mass b \<noteq> 0" and "force b = (0, 0)"
  shows "sim_steps n dt \<lparr>time = t, objects = [b]\<rparr> =
           Some \<lparr>time = t + real n * dt,
                 objects = [b\<lparr>pos := pos b + vscale (vel b) (real n * dt)\<rparr>]\<rparr>"
  using assms
proof (induction n arbitrary: b t)
  case 0
  then show ?case by (cases "pos b") (simp add: vscale_def)
next
  case (Suc n)
  let ?b1 = "b\<lparr>pos := pos b + vscale (vel b) dt\<rparr>"
  have "sim_step dt \<lparr>time = t, objects = [b]\<rparr> = Some \<lparr>time = t + dt, objects = [?b1]\<rparr>"
    using Suc.prems sim_step_few [of "\<lparr>time = t, objects = [b]\<rparr>" dt]
    by (cases "force b") simp
  moreover have "sim_steps n dt \<lparr>time = t + dt, objects = [?b1]\<rparr> =
      Some \<lparr>time = t + dt + real n * dt,
            objects = [?b1\<lparr>pos := pos ?b1 + vscale (vel ?b1) (real n * dt)\<rparr>]\<rparr>"
    using Suc.prems by (intro Suc.IH) simp_all
  moreover have "?b1\<lparr>pos := pos ?b1 + vscale (vel ?b1) (real n * dt)\<rparr> =
      b\<lparr>pos := pos b + vscale (vel b) (real (Suc n) * dt)\<rparr>"
    by (cases "pos b"; cases "vel b") (simp add: vscale_def algebra_simps)
  ultimately show ?case
    by (simp add: algebra_simps)
qed

lemma sim_steps_one: "sim_steps 1 dt w = sim_step dt w"
  by (simp split: option.splits)

lemma update_graphics_momentum:
  "momentum (map update_graphics objs) = momentum objs"
  by (rule momentum_cong) (simp_all add: update_graphics_def comp_def)

lemma sim_steps_funpow:
  "Option.bind r (sim_steps n dt) = ((\<lambda>r. Option.bind r (sim_step dt)) ^^ n) r"
proof (induction n arbitrary: r)
  case 0
  then show ?case by (cases r) simp_all
next
  case (Suc n)
  have "Option.bind r (sim_steps (Suc n) dt) =
          Option.bind (Option.bind r (sim_step dt)) (sim_steps n dt)"
    by (cases r) (simp_all split: option.splits)
  also have "\<dots> = ((\<lambda>r. Option.bind r (sim_step dt)) ^^ n) (Option.bind r (sim_step dt))"
    by (rule Suc.IH)
  also have "\<dots> = ((\<lambda>r. Option.bind r (sim_step dt)) ^^ Suc n) r"
    by (simp only: funpow_Suc_right comp_def)
  finally show ?case .
qed

lemma on_update_Some:
  "on_update w frame_dt = Some w3 \<longleftrightarrow>
     (\<exists>w'. sim_steps STEPS_PER_RENDER DELTA_T w = Some w' \<and>
        w3 = w'\<lparr>objects := map update_graphics (objects w')\<rparr>)"
  by (auto simp: on_update_def Let_def split: option.splits)

section \<open>Trail lemmas\<close>

lemma set_pos_points:
  "points (set_pos t p) =
     (let ps = points t;
          ps1 = (if length ps < 2 then ps @ [p]
                 else if linalg_norm (ps ! (length ps - 2) - p) < spacing
                   then ps[length ps - 1 := p]
                 else ps @ [p])
      in if length ps1 > 100 then drop 1 ps1 else ps1)"
  by (simp add: set_pos_def spacing_def Let_def)

lemma set_pos_length: "length (points t) \<le> 100 \<Longrightarrow> length (points (set_pos t p)) \<le> 100"
  by (auto simp: set_pos_points Let_def)

lemma foldl_set_pos_length: "length (points (foldl set_pos Trail_init ps)) \<le> 100"
proof (induction ps rule: rev_induct)
  case Nil
  then show ?case by (simp add: Trail_init_def)
next
  case (snoc x xs)
  then show ?case by (simp add: set_pos_length)
qed

lemma set_pos_evict:
  assumes "100 \<le> length (points t)"
    and "\<not> linalg_norm (points t ! (length (points t) - 2) - p) < spacing"
  shows "points (set_pos t p) = tl (points t) @ [p]"
  using assms by (cases "points t") (auto simp: set_pos_points Let_def)

lemma set_pos_short:
  "length (points t) < 2 \<Longrightarrow> points (set_pos t p) = points t @ [p]"
  by (simp add: set_pos_points Let_def)

lemma set_pos_far:
  assumes "2 \<le> length (points t)" and "length (points t) < 100"
    and "\<not> linalg_norm (points t ! (length (points t) - 2) - p) < spacing"
  shows "points (set_pos t p) = points t @ [p]"
  using assms by (simp add: set_pos_points Let_def)

lemma update_last:
  "xs \<noteq> [] \<Longrightarrow> xs[length xs - 1 := p] = butlast xs @ [p]"
  by (cases xs rule: rev_cases) simp_all

lemma set_pos_collapse:
  assumes "2 \<le> length (points t)"
    and "linalg_norm (points t ! (length (points t) - 2) - p) < spacing"
  shows "length (points (set_pos t p)) \<le> length (points t)"
    and "last (points (set_pos t p)) = p"
    and "length (points t) \<le> 100 \<Longrightarrow> points (set_pos t p) = butlast (points t) @ [p]"
proof -
  let ?ps = "points t"
  define q where "q = butlast ?ps @ [p]"
  have ne: "?ps \<noteq> []" using assms(1) by auto
  have upd: "?ps[length ?ps - 1 := p] = q"
    unfolding q_def using ne by (rule update_last)
  have lq: "length q = length ?ps" "last q = p"
    using ne by (simp_all add: q_def)
  have "points (set_pos t p) =
      (if length (?ps[length ?ps - 1 := p]) > 100 then drop 1 (?ps[length ?ps - 1 := p])
       else ?ps[length ?ps - 1 := p])"
    using assms by (simp add: set_pos_points Let_def del: length_list_update)
  then have sp: "points (set_pos t p) = (if length ?ps > 100 then drop 1 q else q)"
    by (simp only: upd lq)
  show "length (points (set_pos t p)) \<le> length ?ps"
    unfolding sp using lq by simp
  show "last (points (set_pos t p)) = p"
    unfolding sp using lq assms(1) by (simp add: last_drop)
  show "length ?ps \<le> 100 \<Longrightarrow> points (set_pos t p) = butlast ?ps @ [p]"
    unfolding sp by (simp add: q_def)
qed

lemma triple_spaced_drop: "triple_spaced ps \<Longrightarrow> triple_spaced (drop 1 ps)"
  unfolding triple_spaced_def
proof (intro allI impI)
  fix i
  assume inv: "\<forall>i. i + 2 < length ps \<longrightarrow>
        spacing \<le> linalg_norm (ps ! i - ps ! (i + 2)) \<or>
        linalg_norm (ps ! (i + 1) - ps ! (i + 2)) < spacing"
    and i: "i + 2 < length (drop 1 ps)"
  then have "Suc i + 2 < length ps" by simp
  with inv have "spacing \<le> linalg_norm (ps ! Suc i - ps ! (Suc i + 2)) \<or>
        linalg_norm (ps ! (Suc i + 1) - ps ! (Suc i + 2)) < spacing"
    by blast
  then show "spacing \<le> linalg_norm (drop 1 ps ! i - drop 1 ps ! (i + 2)) \<or>
        linalg_norm (drop 1 ps ! (i + 1) - drop 1 ps ! (i + 2)) < spacing"
    using i by simp
qed

lemma triple_spaced_short: "length ps \<le> 2 \<Longrightarrow> triple_spaced ps"
  by (simp add: triple_spaced_def)

lemma triple_spaced_overwrite:
  assumes "triple_spaced ps" and "2 \<le> length ps"
    and "linalg_norm (ps ! (length ps - 2) - p) < spacing"
  shows "triple_spaced (ps[length ps - 1 := p])"
  unfolding triple_spaced_def
proof (intro allI impI)
  fix i
  assume i: "i + 2 < length (ps[length ps - 1 := p])"
  show "spacing \<le> linalg_norm (ps[length ps - 1 := p] ! i - ps[length ps - 1 := p] ! (i + 2)) \<or>
        linalg_norm (ps[length ps - 1 := p] ! (i + 1) - ps[length ps - 1 := p] ! (i + 2)) < spacing"
  proof (cases "i + 2 = length ps - 1")
    case True
    then have "i + 1 = length ps - 2" by simp
    then show ?thesis
      using assms(3) i True by (simp add: nth_list_update)
  next
    case False
    then have "i + 2 < length ps - 1" using i by simp
    then show ?thesis
      using assms(1) i by (simp add: triple_spaced_def nth_list_update)
  qed
qed

lemma triple_spaced_append:
  assumes "triple_spaced ps" and "2 \<le> length ps"
    and "\<not> linalg_norm (ps ! (length ps - 2) - p) < spacing"
  shows "triple_spaced (ps @ [p])"
  unfolding triple_spaced_def
proof (intro allI impI)
  fix i
  assume i: "i + 2 < length (ps @ [p])"
  show "spacing \<le> linalg_norm ((ps @ [p]) ! i - (ps @ [p]) ! (i + 2)) \<or>
        linalg_norm ((ps @ [p]) ! (i + 1) - (ps @ [p]) ! (i + 2)) < spacing"
  proof (cases "i + 2 = length ps")
    case True
    then have "i = length ps - 2" by simp
    then show ?thesis
      using assms(2,3) True by (simp add: nth_append)
  next
    case False
    then have "i + 2 < length ps" using i by simp
    then show ?thesis
      using assms(1) by (simp add: triple_spaced_def nth_append)
  qed
qed

lemma set_pos_triple_spaced:
  assumes "triple_spaced (points t)"
  shows "triple_spaced (points (set_pos t p))"
proof -
  let ?ps = "points t"
  define ps1 where "ps1 =
     (if length ?ps < 2 then ?ps @ [p]
      else if linalg_norm (?ps ! (length ?ps - 2) - p) < spacing
        then ?ps[length ?ps - 1 := p]
      else ?ps @ [p])"
  consider "length ?ps < 2"
    | "2 \<le> length ?ps" "linalg_norm (?ps ! (length ?ps - 2) - p) < spacing"
    | "2 \<le> length ?ps" "\<not> linalg_norm (?ps ! (length ?ps - 2) - p) < spacing"
    by fastforce
  then have ts: "triple_spaced ps1"
  proof cases
    case 1
    then show ?thesis by (simp add: ps1_def triple_spaced_short)
  next
    case 2
    then show ?thesis using triple_spaced_overwrite [OF assms 2] by (simp add: ps1_def)
  next
    case 3
    then show ?thesis using triple_spaced_append [OF assms 3] by (simp add: ps1_def)
  qed
  have "points (set_pos t p) = (if length ps1 > 100 then drop 1 ps1 else ps1)"
    by (simp only: set_pos_points Let_def ps1_def)
  then show ?thesis
    using ts triple_spaced_drop [OF ts] by (simp split: if_splits)
qed

lemma foldl_set_pos_triple_spaced: "triple_spaced (points (foldl set_pos Trail_init ps))"
proof (induction ps rule: rev_induct)
  case Nil
  then show ?case by (simp add: Trail_init_def triple_spaced_def)
next
  case (snoc x xs)
  then show ?case by (simp add: set_pos_triple_spaced)
qed

section \<open>Evaluation on the example inputs\<close>

lemmas body_simps = body_a_def body_b_def body_c_def Body_init_def Trail_init_def

lemma linalg_norm_axis: "linalg_norm (a, 0) = \<bar>a\<bar>" "linalg_norm (0, a) = \<bar>a\<bar>"
  by (simp_all add: linalg_norm_def)

lemma linalg_norm_pyth: "0 \<le> c \<Longrightarrow> a\<^sup>2 + b\<^sup>2 = c\<^sup>2 \<Longrightarrow> linalg_norm (a, b) = c"
  by (simp add: linalg_norm_def)

lemma linalg_norm_345: "linalg_norm (3, 4) = 5"
  by (rule linalg_norm_pyth) simp_all

lemma spacing_value: "spacing = 5000000"
  by (simp add: spacing_def WORLD_WIDTH_def)

lemma newton_force_ab: "newton_force body_a body_b = (GRAVITY_CONST * 10 / 9, 0)"
  by (simp add: newton_force_def body_simps linalg_norm_axis vscale_def vdiv_def Let_def)

lemma newton_force_ac:
  "newton_force body_a body_c = (GRAVITY_CONST * 6 / 125, GRAVITY_CONST * 8 / 125)"
  by (simp add: newton_force_def body_simps linalg_norm_345 vscale_def vdiv_def Let_def)

lemma pair_force_ab: "pair_force body_a body_b = Some (GRAVITY_CONST * 10 / 9, 0)"
  by (simp add: pair_force_def body_simps linalg_norm_axis atan2_def Let_def)

lemma calculate_forces_ab:
  "calculate_forces [body_a, body_b] =
     Some [body_a\<lparr>force := (GRAVITY_CONST * 10 / 9, 0)\<rparr>,
           body_b\<lparr>force := (- (GRAVITY_CONST * 10 / 9), 0)\<rparr>]"
  by (simp add: calculate_forces_def pair_force_ab set_force_def Let_def)

lemma sim_step_ab:
  "sim_step 1 widget_ab =
     Some \<lparr>time = 1,
           objects =
             [body_a\<lparr>force := (GRAVITY_CONST * 10 / 9, 0), vel := (GRAVITY_CONST * 5 / 9, 0)\<rparr>,
              body_b\<lparr>force := (- (GRAVITY_CONST * 10 / 9), 0), pos := (3, 1),
                     vel := (- (GRAVITY_CONST * 2 / 9), 1)\<rparr>]\<rparr>"
  by (simp add: sim_step_def widget_ab_def calculate_forces_ab update_state_def Let_def
      vscale_def vdiv_def) (simp add: body_simps)

lemma sim_step_ab1: "sim_step 1 widget_ab = Some widget_ab_1"
  by (simp add: sim_step_ab widget_ab_1_def)

lemma momentum_ab: "momentum (objects widget_ab) = (0, 5)"
  by (simp add: widget_ab_def momentum_def body_simps vscale_def)

lemma momentum_b: "momentum (objects widget_b) = (0, 5)"
  by (simp add: widget_b_def momentum_def body_simps vscale_def)

lemma on_update_b:
  "on_update widget_b frame_dt =
     Some \<lparr>time = 10000,
           objects = [body_b\<lparr>pos := (3, 10000), trail := \<lparr>points = [(3, 10000)]\<rparr>\<rparr>]\<rparr>"
proof -
  have "sim_steps STEPS_PER_RENDER DELTA_T widget_b =
      Some \<lparr>time = 10000, objects = [body_b\<lparr>pos := (3, 10000)\<rparr>]\<rparr>"
    unfolding widget_b_def
    by (subst sim_steps_single)
      (simp_all add: body_simps STEPS_PER_RENDER_def DELTA_T_def vscale_def)
  then show ?thesis
    by (simp add: on_update_def Let_def update_graphics_def set_pos_def body_simps)
qed

lemma trail_2_reachable: "foldl set_pos Trail_init [(0, 0), (10 ^ 7, 0)] = trail_2"
  by (simp add: set_pos_def Trail_init_def trail_2_def Let_def)

lemma full_trail_simps:
  "length (points full_trail) = 100"
  "points full_trail ! 98 = (980000000, 0)"
  by (simp_all add: full_trail_def)

lemma full_trail_prefix:
  "n \<le> 100 \<Longrightarrow>
   foldl set_pos Trail_init (map (\<lambda>i. (real i * 10 ^ 7, 0)) [0..<n]) =
     \<lparr>points = map (\<lambda>i. (real i * 10 ^ 7, 0)) [0..<n]\<rparr>"
proof (induction n)
  case 0
  then show ?case by (simp add: Trail_init_def)
next
  case (Suc n)
  let ?f = "\<lambda>i. (real i * 10 ^ 7, 0 :: real)"
  let ?t = "\<lparr>points = map ?f [0..<n]\<rparr>"
  have far: "2 \<le> n \<Longrightarrow> \<not> linalg_norm (points ?t ! (length (points ?t) - 2) - ?f n) < spacing"
    by (simp add: linalg_norm_axis spacing_value of_nat_diff algebra_simps)
  have "points (set_pos ?t (?f n)) = points ?t @ [?f n]"
  proof (cases "n < 2")
    case True
    then show ?thesis by (intro set_pos_short) simp
  next
    case False
    then show ?thesis using Suc.prems far by (intro set_pos_far) simp_all
  qed
  then have "set_pos ?t (?f n) = \<lparr>points = map ?f [0..<Suc n]\<rparr>"
    by (simp add: set_pos_def Let_def)
  then show ?case
    using Suc by simp
qed

lemma full_trail_reachable:
  "foldl set_pos Trail_init (map (\<lambda>i. (real i * 10 ^ 7, 0)) [0..<100]) = full_trail"
  unfolding full_trail_def by (rule full_trail_prefix) simp

section \<open>The force solver\<close>

text \<open>
  Claim C1. For every list of bodies with pairwise distinct positions, \<^verbatim>\<open>calculate_forces\<close>
  returns, and the force it assigns to body \<open>i\<close> is the sum over all other bodies \<open>j\<close> of
  the vector of magnitude \<open>G * m_i * m_j / d\<^sup>2\<close> directed from \<open>i\<close> towards \<open>j\<close>. Every
  unordered pair enters the sum of each of its two bodies once. The forces the bodies held
  before the call do not occur on the right-hand side: they are overwritten.
\<close>

theorem calculate_forces_newton:
  assumes "distinct (map pos objs)"
  shows "\<exists>objs'. calculate_forces objs = Some objs' \<and> length objs' = length objs \<and>
           (\<forall>i<length objs. force (objs' ! i) =
              (\<Sum>j\<in>{..<length objs} - {i}. newton_force (objs ! i) (objs ! j)))"
  by (simp add: calculate_forces_distinct [OF assms] set_force_def net_force_def)

theorem calculate_forces_newton_witness:
  "distinct (map pos [body_a, body_b, body_c]) \<and>
   (\<exists>objs'. calculate_forces [body_a, body_b, body_c] = Some objs' \<and>
      force (objs' ! 0) =
        (GRAVITY_CONST * 10 / 9 + GRAVITY_CONST * 6 / 125, GRAVITY_CONST * 8 / 125))"
proof -
  let ?objs = "[body_a, body_b, body_c]"
  have d: "distinct (map pos ?objs)"
    by (simp add: body_simps)
  from calculate_forces_newton [OF d] obtain objs'
    where run: "calculate_forces ?objs = Some objs'"
      and val: "\<forall>i<length ?objs. force (objs' ! i) =
              (\<Sum>j\<in>{..<length ?objs} - {i}. newton_force (?objs ! i) (?objs ! j))"
    by blast
  have "force (objs' ! 0) =
          (\<Sum>j\<in>{..<length ?objs} - {0}. newton_force (?objs ! 0) (?objs ! j))"
    using val by simp
  also have "{..<length ?objs} - {0} = {1, 2}"
    by auto
  also have "(\<Sum>j\<in>{1, 2}. newton_force (?objs ! 0) (?objs ! j))
      = newton_force body_a body_b + newton_force body_a body_c"
    by simp
  finally show ?thesis
    using d run by (simp add: newton_force_ab newton_force_ac)
qed

text \<open>
  Claim C2. One pass of the pair loop for the bodies at two different indices adds a vector
  \<open>f\<close> to the accumulator of the first and \<open>- f\<close> to the accumulator of the second. For a
  list of two bodies at different positions the solver returns, and the two forces it
  assigns are the negation of one another.
\<close>

theorem pair_contributions_opposite:
  "(pair_force (objs ! i1) (objs ! i2) = Some f \<and>
      i1 < length forces \<and> i2 < length forces \<and> i1 \<noteq> i2 \<longrightarrow>
      (\<exists>forces'. inner_loop objs i1 [i2] forces = Some forces' \<and>
         forces' ! i1 - forces ! i1 = f \<and>
         forces' ! i2 - forces ! i2 = - f)) \<and>
   (pos a \<noteq> pos b \<longrightarrow>
      (\<exists>a' b'. calculate_forces [a, b] = Some [a', b'] \<and> force a' = - force b'))"
proof (intro conjI impI)
  assume "pair_force (objs ! i1) (objs ! i2) = Some f \<and>
      i1 < length forces \<and> i2 < length forces \<and> i1 \<noteq> i2"
  then obtain forces' where "inner_loop objs i1 [i2] forces = Some forces'"
    and "forces' ! i1 = forces ! i1 + f" and "forces' ! i2 = forces ! i2 + (- f)"
    using inner_loop_single [of objs i1 i2 f forces] by blast
  then show "\<exists>forces'. inner_loop objs i1 [i2] forces = Some forces' \<and>
         forces' ! i1 - forces ! i1 = f \<and>
         forces' ! i2 - forces ! i2 = - f"
    by simp
next
  assume "pos a \<noteq> pos b"
  then have "pair_force a b = Some (newton_force a b)"
    by (rule pair_force_newton)
  then show "\<exists>a' b'. calculate_forces [a, b] = Some [a', b'] \<and> force a' = - force b'"
    by (simp add: calculate_forces_two set_force_def)
qed

theorem pair_contributions_opposite_witness:
  "pair_force ([body_a, body_b] ! 0) ([body_a, body_b] ! 1) = Some (GRAVITY_CONST * 10 / 9, 0) \<and>
   (\<exists>forces'. inner_loop [body_a, body_b] 0 [1] [(0, 0), (0, 0)] = Some forces' \<and>
      forces' ! 0 = (GRAVITY_CONST * 10 / 9, 0) \<and>
      forces' ! 1 = (- (GRAVITY_CONST * 10 / 9), 0)) \<and>
   pos body_a \<noteq> pos body_b \<and>
   (\<exists>a' b'. calculate_forces [body_a, body_b] = Some [a', b'] \<and> force a' = - force b')"
proof -
  have pf: "pair_force ([body_a, body_b] ! 0) ([body_a, body_b] ! 1)
      = Some (GRAVITY_CONST * 10 / 9, 0)"
    by (simp add: pair_force_ab)
  have ne: "pos body_a \<noteq> pos body_b"
    by (simp add: body_simps)
  from pair_contributions_opposite
    [of "[body_a, body_b]" 0 1 "(GRAVITY_CONST * 10 / 9, 0)" "[(0, 0), (0, 0)]" body_a body_b]
  show ?thesis
    using pf ne by (simp add: zero_prod_def [symmetric])
qed

section \<open>The integration step\<close>

text \<open>
  Claim C3. For a body of non-zero mass (the data model requires a positive mass) and every
  time step \<open>dt\<close>, \<^verbatim>\<open>update_state\<close> returns a body whose position is the old position plus
  the old velocity times \<open>dt\<close>, and whose velocity is the old velocity plus the old force
  divided by the mass, times \<open>dt\<close>: both new values are computed from the values before
  the step, although the two assignments run one after the other.
\<close>

theorem update_state_explicit_euler:
  assumes "mass b \<noteq> 0"
  shows "\<exists>b'. update_state b dt = Some b' \<and>
           pos b' = pos b + vscale (vel b) dt \<and>
           vel b' = vel b + vscale (vdiv (force b) (mass b)) dt"
  using assms by (simp add: update_state_def Let_def)

theorem update_state_explicit_euler_witness:
  "mass body_b \<noteq> 0 \<and>
   (\<exists>b'. update_state body_b 10 = Some b' \<and> pos b' = (3, 10) \<and> vel b' = (0, 1))"
proof -
  have m: "mass body_b \<noteq> 0" by (simp add: body_simps)
  from update_state_explicit_euler [OF m, of 10] show ?thesis
    by (simp add: body_simps vscale_def vdiv_def)
qed

section \<open>Momentum\<close>

text \<open>
  Claim C4. The total momentum, the sum of mass times velocity over all bodies, is unchanged
  by a simulation step: a step from pairwise distinct positions and positive masses returns
  and keeps the total momentum; any number of steps that return keep it; and so does a
  frame update that returns.
\<close>

theorem momentum_conserved:
  "(distinct (map pos (objects w)) \<and> (\<forall>b\<in>set (objects w). 0 < mass b) \<longrightarrow>
      (\<exists>w'. sim_step dt w = Some w' \<and> momentum (objects w') = momentum (objects w))) \<and>
   (sim_steps n dt w = Some w1 \<longrightarrow> momentum (objects w1) = momentum (objects w)) \<and>
   (on_update w frame_dt = Some w2 \<longrightarrow> momentum (objects w2) = momentum (objects w))"
proof (intro conjI impI)
  assume a: "distinct (map pos (objects w)) \<and> (\<forall>b\<in>set (objects w). 0 < mass b)"
  then have "\<forall>b\<in>set (objects w). mass b \<noteq> 0" by auto
  with a obtain w' where "sim_step dt w = Some w'"
    using sim_step_total [of w dt] by blast
  then show "\<exists>w'. sim_step dt w = Some w' \<and> momentum (objects w') = momentum (objects w)"
    using sim_step_momentum by blast
next
  assume "sim_steps n dt w = Some w1"
  then show "momentum (objects w1) = momentum (objects w)"
    by (rule sim_steps_momentum)
next
  assume "on_update w frame_dt = Some w2"
  then obtain w' where run: "sim_steps STEPS_PER_RENDER DELTA_T w = Some w'"
    and w2: "w2 = w'\<lparr>objects := map update_graphics (objects w')\<rparr>"
    by (auto simp: on_update_def Let_def split: option.splits)
  have "momentum (objects w2) = momentum (objects w')"
    unfolding w2 by (simp add: update_graphics_momentum)
  then show "momentum (objects w2) = momentum (objects w)"
    using sim_steps_momentum [OF run] by simp
qed

theorem momentum_conserved_witness:
  "distinct (map pos (objects widget_ab)) \<and> 0 < mass body_a \<and> 0 < mass body_b \<and>
   (\<exists>w'. sim_step 1 widget_ab = Some w' \<and> momentum (objects w') = (0, 5)) \<and>
   sim_steps 1 1 widget_ab = Some widget_ab_1 \<and> momentum (objects widget_ab_1) = (0, 5) \<and>
   (\<exists>w2. on_update widget_b 0 = Some w2 \<and> momentum (objects w2) = (0, 5))"
proof -
  have d: "distinct (map pos (objects widget_ab))"
    by (simp add: widget_ab_def body_simps)
  have m: "0 < mass body_a" "0 < mass body_b"
    by (simp_all add: body_simps)
  have m': "\<forall>b\<in>set (objects widget_ab). 0 < mass b"
    using m by (simp add: widget_ab_def)
  have s1: "sim_steps 1 1 widget_ab = Some widget_ab_1"
    by (simp add: sim_steps_one sim_step_ab1)
  obtain w2 where u: "on_update widget_b 0 = Some w2"
    by (simp add: on_update_b)
  from momentum_conserved [of widget_ab 1 1 widget_ab_1 0 widget_ab_1]
  have a: "\<exists>w'. sim_step 1 widget_ab = Some w' \<and> momentum (objects w') = (0, 5)"
    and b: "momentum (objects widget_ab_1) = (0, 5)"
    using d m' s1 by (simp_all add: momentum_ab)
  from momentum_conserved [of widget_b 1 0 widget_b 0 w2]
  have c: "momentum (objects w2) = (0, 5)"
    using u by (simp add: momentum_b)
  show ?thesis
    using d m a s1 b u c by simp
qed

section \<open>The trail\<close>

text \<open>
  Claim C5. A trail built from the empty trail by any sequence of \<^verbatim>\<open>set_pos\<close> calls holds at
  most 100 points, \<^verbatim>\<open>set_pos\<close> keeps a trail of at most 100 points at most 100 points long,
  and when a point is appended to a trail of 100 points the first point is the one dropped.
\<close>

theorem trail_cap:
  "length (points (foldl set_pos Trail_init ps)) \<le> 100 \<and>
   (length (points t) \<le> 100 \<longrightarrow> length (points (set_pos t p)) \<le> 100) \<and>
   (length (points t) = 100 \<and>
    \<not> linalg_norm (points t ! 98 - p) < WORLD_WIDTH * (1 / 100) \<longrightarrow>
      points (set_pos t p) = tl (points t) @ [p])"
proof (intro conjI impI)
  show "length (points (foldl set_pos Trail_init ps)) \<le> 100"
    by (rule foldl_set_pos_length)
next
  assume "length (points t) \<le> 100"
  then show "length (points (set_pos t p)) \<le> 100"
    by (rule set_pos_length)
next
  assume "length (points t) = 100 \<and>
    \<not> linalg_norm (points t ! 98 - p) < WORLD_WIDTH * (1 / 100)"
  then show "points (set_pos t p) = tl (points t) @ [p]"
    by (intro set_pos_evict) (simp_all add: spacing_def)
qed

theorem trail_cap_witness:
  "length (points full_trail) = 100 \<and>
   \<not> linalg_norm (points full_trail ! 98 - (10 ^ 9, 0)) < WORLD_WIDTH * (1 / 100) \<and>
   length (points (set_pos full_trail (10 ^ 9, 0))) \<le> 100 \<and>
   points (set_pos full_trail (10 ^ 9, 0)) = tl (points full_trail) @ [(10 ^ 9, 0)]"
proof -
  have far: "\<not> linalg_norm (points full_trail ! 98 - (10 ^ 9, 0)) < WORLD_WIDTH * (1 / 100)"
    by (simp add: full_trail_simps linalg_norm_axis WORLD_WIDTH_def)
  from trail_cap [of "[]" full_trail "(10 ^ 9, 0)"] show ?thesis
    using far by (simp add: full_trail_simps)
qed

text \<open>
  Claim C6 fails as stated. From a trail of two points, recording \<open>(20000000, 0)\<close> and then
  \<open>(20000001, 0)\<close>, one kilometre further, appends both: the comparison is against the
  second-to-last stored point, not against the position recorded last.
\<close>

theorem trail_collapse_counterexample:
  "2 \<le> length (points trail_2) \<and>
   linalg_norm ((20000000, 0) - (20000001, 0)) < WORLD_WIDTH * (1 / 100) \<and>
   points (set_pos trail_2 (20000000, 0)) = [(0, 0), (10 ^ 7, 0), (20000000, 0)] \<and>
   points (set_pos (set_pos trail_2 (20000000, 0)) (20000001, 0)) =
     [(0, 0), (10 ^ 7, 0), (20000000, 0), (20000001, 0)] \<and>
   length (points (set_pos trail_2 (20000000, 0)))
     < length (points (set_pos (set_pos trail_2 (20000000, 0)) (20000001, 0)))"
  by (simp add: set_pos_def trail_2_def Let_def linalg_norm_axis WORLD_WIDTH_def)

text \<open>
  Claim C6, amended. For a trail of at least two points, recording a position closer than the
  threshold to the second-to-last stored point does not increase the number of points: the
  new position is the last point afterwards, and for a trail of at most 100 points it
  replaces the last stored point.
\<close>

theorem trail_collapse:
  assumes "2 \<le> length (points t)"
    and "linalg_norm (points t ! (length (points t) - 2) - p) < WORLD_WIDTH * (1 / 100)"
  shows "length (points (set_pos t p)) \<le> length (points t) \<and>
         last (points (set_pos t p)) = p \<and>
         (length (points t) \<le> 100 \<longrightarrow> points (set_pos t p) = butlast (points t) @ [p])"
  using set_pos_collapse [of t p] assms by (simp add: spacing_def)

theorem trail_collapse_witness:
  "2 \<le> length (points trail_2) \<and>
   linalg_norm (points trail_2 ! (length (points trail_2) - 2) - (1, 0))
     < WORLD_WIDTH * (1 / 100) \<and>
   points (set_pos trail_2 (1, 0)) = [(0, 0), (1, 0)]"
proof -
  have l: "2 \<le> length (points trail_2)"
    by (simp add: trail_2_def)
  have n: "linalg_norm (points trail_2 ! (length (points trail_2) - 2) - (1, 0))
     < WORLD_WIDTH * (1 / 100)"
    by (simp add: trail_2_def linalg_norm_axis WORLD_WIDTH_def)
  from trail_collapse [OF l n] show ?thesis
    using l n by (simp add: trail_2_def)
qed

text \<open>
  Claim C7 fails as stated. Recording \<open>(0, 0)\<close>, \<open>(1, 0)\<close> and \<open>(10\<^sup>7, 0)\<close> from the empty
  trail stores all three points; the first two are one kilometre apart and are not the two
  most recent points.
\<close>

theorem trail_spacing_counterexample:
  "points (foldl set_pos Trail_init [(0, 0), (1, 0), (10 ^ 7, 0)]) =
     [(0, 0), (1, 0), (10 ^ 7, 0)] \<and>
   linalg_norm ((0, 0) - (1, 0)) < WORLD_WIDTH * (1 / 100)"
  by (simp add: set_pos_def Trail_init_def Let_def linalg_norm_axis WORLD_WIDTH_def)

text \<open>
  Claim C7, amended. In every trail built from the empty trail by \<^verbatim>\<open>set_pos\<close> calls, every
  stored point with two predecessors is at least the threshold away from the point two
  places before it, or closer than the threshold to the point right before it.
\<close>

theorem trail_spacing:
  "triple_spaced (points (foldl set_pos Trail_init ps))"
  by (rule foldl_set_pos_triple_spaced)

theorem trail_spacing_witness:
  "points (foldl set_pos Trail_init [(0, 0), (1, 0), (10 ^ 7, 0)]) =
     [(0, 0), (1, 0), (10 ^ 7, 0)] \<and>
   WORLD_WIDTH * (1 / 100) \<le> linalg_norm ((0, 0) - (10 ^ 7, 0))"
proof -
  have e: "points (foldl set_pos Trail_init [(0, 0), (1, 0), (10 ^ 7, 0)]) =
     [(0, 0), (1, 0), (10 ^ 7, 0)]"
    by (simp add: set_pos_def Trail_init_def Let_def linalg_norm_axis WORLD_WIDTH_def)
  have far: "\<not> linalg_norm ((1, 0) - (10 ^ 7, 0)) < spacing"
    by (simp add: linalg_norm_axis spacing_value)
  from trail_spacing [of "[(0, 0), (1, 0), (10 ^ 7, 0)]"]
  have ts: "triple_spaced [(0, 0), (1, 0), (10 ^ 7, 0)]"
    unfolding e .
  have "spacing \<le> linalg_norm ((0, 0) - (10 ^ 7, 0)) \<or>
        linalg_norm ((1, 0) - (10 ^ 7, 0)) < spacing"
    using ts [unfolded triple_spaced_def, rule_format, of 0] by simp
  then show ?thesis
    using e far by (simp add: spacing_def)
qed

section \<open>The simulation driver\<close>

text \<open>
  Claim C8. A simulation step returns exactly when the force solver returns on the bodies
  and the integration of every resulting body returns, and it adds \<open>dt\<close> to the time. The
  step loop is the \<open>n\<close>-fold iteration of the step, and after \<open>n\<close> steps that return the time
  is the starting time plus \<open>n * dt\<close>, which is later than the starting time for positive
  \<open>n\<close> and \<open>dt\<close>. \<^verbatim>\<open>on_update\<close> runs the loop \<^verbatim>\<open>STEPS_PER_RENDER\<close> times with the step \<^verbatim>\<open>DELTA_T\<close>
  and then updates the graphics, so it advances the time by their product.
\<close>

theorem advance_steps:
  "(sim_step dt w = Some w1 \<longleftrightarrow>
      (\<exists>objs1 objs2. calculate_forces (objects w) = Some objs1 \<and>
         update_all objs1 dt = Some objs2 \<and>
         w1 = w\<lparr>time := time w + dt, objects := objs2\<rparr>)) \<and>
   sim_steps n dt w = ((\<lambda>r. Option.bind r (sim_step dt)) ^^ n) (Some w) \<and>
   (sim_steps n dt w = Some w2 \<longrightarrow>
      time w2 = time w + real n * dt \<and> (0 < n \<and> 0 < dt \<longrightarrow> time w < time w2)) \<and>
   (on_update w frame_dt = Some w3 \<longrightarrow>
      (\<exists>w'. sim_steps STEPS_PER_RENDER DELTA_T w = Some w' \<and>
         w3 = w'\<lparr>objects := map update_graphics (objects w')\<rparr>) \<and>
      time w3 = time w + real STEPS_PER_RENDER * DELTA_T \<and>
      time w < time w3)"
proof (intro conjI impI)
  show "sim_step dt w = Some w1 \<longleftrightarrow>
      (\<exists>objs1 objs2. calculate_forces (objects w) = Some objs1 \<and>
         update_all objs1 dt = Some objs2 \<and>
         w1 = w\<lparr>time := time w + dt, objects := objs2\<rparr>)"
    by (auto simp: sim_step_def Let_def split: option.splits)
  show "sim_steps n dt w = ((\<lambda>r. Option.bind r (sim_step dt)) ^^ n) (Some w)"
    using sim_steps_funpow [of "Some w" n dt] by simp
next
  assume "sim_steps n dt w = Some w2"
  then show "time w2 = time w + real n * dt"
    by (rule sim_steps_time)
next
  assume r: "sim_steps n dt w = Some w2" and "0 < n \<and> 0 < dt"
  then have "0 < real n * dt" by simp
  then show "time w < time w2"
    using sim_steps_time [OF r] by simp
next
  assume "on_update w frame_dt = Some w3"
  then show "\<exists>w'. sim_steps STEPS_PER_RENDER DELTA_T w = Some w' \<and>
         w3 = w'\<lparr>objects := map update_graphics (objects w')\<rparr>"
    by (simp add: on_update_Some)
next
  assume "on_update w frame_dt = Some w3"
  then obtain w' where r: "sim_steps STEPS_PER_RENDER DELTA_T w = Some w'"
    and w3: "w3 = w'\<lparr>objects := map update_graphics (objects w')\<rparr>"
    by (auto simp: on_update_Some)
  show "time w3 = time w + real STEPS_PER_RENDER * DELTA_T"
    using sim_steps_time [OF r] w3 by simp
next
  assume "on_update w frame_dt = Some w3"
  then obtain w' where r: "sim_steps STEPS_PER_RENDER DELTA_T w = Some w'"
    and w3: "w3 = w'\<lparr>objects := map update_graphics (objects w')\<rparr>"
    by (auto simp: on_update_Some)
  show "time w < time w3"
    using sim_steps_time [OF r] w3 by (simp add: STEPS_PER_RENDER_def DELTA_T_def)
qed

theorem advance_steps_witness:
  "sim_step 1 widget_ab = Some widget_ab_1 \<and>
   sim_steps 1 1 widget_ab = Some widget_ab_1 \<and>
   time widget_ab_1 = time widget_ab + 1 \<and>
   time widget_ab < time widget_ab_1 \<and>
   on_update widget_b 0 = Some widget_b_100 \<and>
   time widget_b_100 = time widget_b + 10000 \<and>
   time widget_b < time widget_b_100"
proof -
  have s1: "sim_steps 1 1 widget_ab = Some widget_ab_1"
    by (simp add: sim_steps_one sim_step_ab1)
  have u: "on_update widget_b 0 = Some widget_b_100"
    by (simp add: on_update_b widget_b_100_def)
  from advance_steps [of 1 widget_ab widget_ab_1 1 widget_ab_1 0 widget_b_100]
  have a: "time widget_ab_1 = time widget_ab + 1" "time widget_ab < time widget_ab_1"
    using s1 by simp_all
  from advance_steps [of 1 widget_b widget_b 0 widget_b 0 widget_b_100]
  have b: "time widget_b_100 = time widget_b + 10000" "time widget_b < time widget_b_100"
    using u by (simp_all add: STEPS_PER_RENDER_def DELTA_T_def)
  show ?thesis
    using sim_step_ab1 s1 a u b by simp
qed

text \<open>
  Claim C9. For a list of no body or of one body of positive mass, the force solver returns
  and sets every force to zero, a simulation step returns with every force zero and every
  velocity unchanged, and so does a frame update.
\<close>

theorem few_bodies_advance:
  assumes "length (objects w) \<le> 1" and "\<forall>b\<in>set (objects w). 0 < mass b"
  shows "calculate_forces (objects w) = Some (map (\<lambda>b. set_force b (0, 0)) (objects w)) \<and>
         (\<exists>w'. sim_step dt w = Some w' \<and>
            map force (objects w') = map (\<lambda>b. (0, 0)) (objects w) \<and>
            map vel (objects w') = map vel (objects w)) \<and>
         (\<exists>w'. on_update w frame_dt = Some w' \<and>
            map force (objects w') = map (\<lambda>b. (0, 0)) (objects w) \<and>
            map vel (objects w') = map vel (objects w))"
proof (intro conjI)
  have m: "\<forall>b\<in>set (objects w). mass b \<noteq> 0" using assms(2) by auto
  show "calculate_forces (objects w) = Some (map (\<lambda>b. set_force b (0, 0)) (objects w))"
    using assms(1) by (rule calculate_forces_few)
  show "\<exists>w'. sim_step dt w = Some w' \<and>
            map force (objects w') = map (\<lambda>b. (0, 0)) (objects w) \<and>
            map vel (objects w') = map vel (objects w)"
    by (simp add: sim_step_few [OF assms(1) m] comp_def)
  from sim_steps_few [OF assms(1) m, of STEPS_PER_RENDER DELTA_T]
  obtain w' where r: "sim_steps STEPS_PER_RENDER DELTA_T w = Some w'"
    and len: "length (objects w') = length (objects w)"
    and vel: "map vel (objects w') = map vel (objects w)"
    and frc: "\<forall>b'\<in>set (objects w'). force b' = (0, 0)"
    by (auto simp: STEPS_PER_RENDER_def)
  have "map force (objects w') = map (\<lambda>b. (0, 0)) (objects w)"
    using len frc by (auto intro!: nth_equalityI)
  then show "\<exists>w'. on_update w frame_dt = Some w' \<and>
            map force (objects w') = map (\<lambda>b. (0, 0)) (objects w) \<and>
            map vel (objects w') = map vel (objects w)"
    using r vel by (simp add: on_update_def Let_def update_graphics_def comp_def)
qed

theorem few_bodies_advance_witness:
  "length (objects widget_b) \<le> 1 \<and> 0 < mass body_b \<and>
   calculate_forces [body_b] = Some [body_b] \<and>
   (\<exists>w'. sim_step 1 widget_b = Some w' \<and>
      map force (objects w') = [(0, 0)] \<and> map vel (objects w') = [(0, 1)]) \<and>
   (\<exists>w'. on_update widget_b 0 = Some w' \<and>
      map force (objects w') = [(0, 0)] \<and> map vel (objects w') = [(0, 1)])"
proof -
  have l: "length (objects widget_b) \<le> 1"
    by (simp add: widget_b_def)
  have m: "0 < mass body_b"
    by (simp add: body_simps)
  have m': "\<forall>b\<in>set (objects widget_b). 0 < mass b"
    using m by (simp add: widget_b_def)
  have o: "objects widget_b = [body_b]" by (simp add: widget_b_def)
  have v: "vel body_b = (0, 1)" "set_force body_b (0, 0) = body_b"
    by (simp_all add: body_simps set_force_def)
  from few_bodies_advance [OF l m', of 1 0] show ?thesis
    using l m by (simp add: o v)
qed

section \<open>Frame conditions\<close>

text \<open>
  Claim C10. \<^verbatim>\<open>update_state\<close> leaves the mass, the radius, the stored force and the trail of
  the body as they were, and \<^verbatim>\<open>calculate_forces\<close> leaves the number of bodies and the
  position, velocity, mass, radius and trail of every body as they were.
\<close>

theorem frame_conditions:
  "(update_state b dt = Some b' \<longrightarrow>
      mass b' = mass b \<and> radius b' = radius b \<and> force b' = force b \<and> trail b' = trail b) \<and>
   (calculate_forces objs = Some objs' \<longrightarrow>
      length objs' = length objs \<and>
      map pos objs' = map pos objs \<and> map vel objs' = map vel objs \<and>
      map mass objs' = map mass objs \<and> map radius objs' = map radius objs \<and>
      map trail objs' = map trail objs)"
proof (intro conjI impI)
  assume "update_state b dt = Some b'"
  then have b': "b' = euler_step b dt"
    by (simp add: update_state_euler split: if_splits)
  show "mass b' = mass b" "radius b' = radius b" "force b' = force b" "trail b' = trail b"
    unfolding b' by (simp_all add: euler_step_def)
next
  assume "calculate_forces objs = Some objs'"
  from calculate_forces_frame [OF this] obtain fs
    where len: "length fs = length objs"
      and o1: "objs' = map (\<lambda>(obj, f). set_force obj f) (zip objs fs)"
    by blast
  show "length objs' = length objs"
    unfolding o1 using len by simp
  show "map pos objs' = map pos objs" "map vel objs' = map vel objs"
    "map mass objs' = map mass objs" "map radius objs' = map radius objs"
    "map trail objs' = map trail objs"
    unfolding o1 by (rule map2_set_force [OF len])+
qed

theorem frame_conditions_witness:
  "update_state body_b 10 = Some (body_b\<lparr>pos := (3, 10)\<rparr>) \<and>
   mass (body_b\<lparr>pos := (3, 10)\<rparr>) = mass body_b \<and>
   force (body_b\<lparr>pos := (3, 10)\<rparr>) = force body_b \<and>
   calculate_forces [body_a, body_b] =
     Some [body_a\<lparr>force := (GRAVITY_CONST * 10 / 9, 0)\<rparr>,
           body_b\<lparr>force := (- (GRAVITY_CONST * 10 / 9), 0)\<rparr>] \<and>
   map pos [body_a\<lparr>force := (GRAVITY_CONST * 10 / 9, 0)\<rparr>,
            body_b\<lparr>force := (- (GRAVITY_CONST * 10 / 9), 0)\<rparr>] = map pos [body_a, body_b]"
proof -
  have u: "update_state body_b 10 = Some (body_b\<lparr>pos := (3, 10)\<rparr>)"
    by (simp add: update_state_def body_simps vscale_def vdiv_def)
  from frame_conditions
    [of body_b 10 "body_b\<lparr>pos := (3, 10)\<rparr>" "[body_a, body_b]"
      "[body_a\<lparr>force := (GRAVITY_CONST * 10 / 9, 0)\<rparr>,
        body_b\<lparr>force := (- (GRAVITY_CONST * 10 / 9), 0)\<rparr>]"]
  show ?thesis
    using u calculate_forces_ab by simp
qed

end
